theory Spec2Isabelle
  imports Complex_Main "HOL-Library.Word"
begin

section \<open>JavaScript values\<close>

text \<open>
  The values the convolution handles. A JavaScript Number is modelled on its
  integer-valued part together with \<open>NaN\<close> and the two infinities: image channels are
  bytes, and for integer kernel weights every product, sum and floored quotient below
  \<open>2 ^ 53\<close> is computed exactly by the double arithmetic of the source. Fractional
  weights are outside the model. \<open>Pixel r g b a\<close> is an object built by
  \<open>new imgproc.Pixel\<close>; its channels are values again, because the constructor stores
  whatever it is given.
\<close>

datatype jsval =
    Num int
  | NaN
  | PosInf
  | NegInf
  | Undefined
  | Pixel jsval jsval jsval jsval

datatype error =
    TypeError
  | ReferenceError
  | IndexSizeError
  | ConvolutionError string

text \<open>Property reads \<open>v.r\<close>, \<open>v.g\<close>, \<open>v.b\<close>, \<open>v.a\<close> of a value that is not
  \<open>undefined\<close>: a Pixel gives the channel, a Number has no such property and gives
  \<open>undefined\<close>. (Reading a property of \<open>undefined\<close> itself throws; the callers below
  test for that first.)\<close>

fun chan_r :: "jsval \<Rightarrow> jsval" where
  "chan_r (Pixel r g b a) = r"
| "chan_r _ = Undefined"

fun chan_g :: "jsval \<Rightarrow> jsval" where
  "chan_g (Pixel r g b a) = g"
| "chan_g _ = Undefined"

fun chan_b :: "jsval \<Rightarrow> jsval" where
  "chan_b (Pixel r g b a) = b"
| "chan_b _ = Undefined"

fun chan_a :: "jsval \<Rightarrow> jsval" where
  "chan_a (Pixel r g b a) = a"
| "chan_a _ = Undefined"

text \<open>\<open>ToNumber\<close>: \<open>undefined\<close> and every object here convert to \<open>NaN\<close>.\<close>

fun to_number :: "jsval \<Rightarrow> jsval" where
  "to_number Undefined = NaN"
| "to_number (Pixel r g b a) = NaN"
| "to_number v = v"

text \<open>The operator \<open>*\<close> on two Numbers.\<close>

fun num_mul :: "jsval \<Rightarrow> jsval \<Rightarrow> jsval" where
  "num_mul (Num m) (Num n) = Num (m * n)"
| "num_mul (Num m) PosInf = (if 0 < m then PosInf else if m < 0 then NegInf else NaN)"
| "num_mul (Num m) NegInf = (if 0 < m then NegInf else if m < 0 then PosInf else NaN)"
| "num_mul PosInf (Num n) = (if 0 < n then PosInf else if n < 0 then NegInf else NaN)"
| "num_mul NegInf (Num n) = (if 0 < n then NegInf else if n < 0 then PosInf else NaN)"
| "num_mul PosInf PosInf = PosInf"
| "num_mul PosInf NegInf = NegInf"
| "num_mul NegInf PosInf = NegInf"
| "num_mul NegInf NegInf = PosInf"
| "num_mul _ _ = NaN"

definition js_mul :: "jsval \<Rightarrow> jsval \<Rightarrow> jsval" where
  "js_mul v w = num_mul (to_number v) (to_number w)"

text \<open>The operator \<open>+\<close> as \<open>+=\<close> uses it on the accumulators. With an object operand
  JavaScript concatenates strings; the string holds the text \<open>[object Object]\<close>, stays a
  string under every later \<open>+=\<close>, and converts to \<open>NaN\<close> in the division that is its
  only use, so the sum is \<open>NaN\<close> here from the start.\<close>

fun num_add :: "jsval \<Rightarrow> jsval \<Rightarrow> jsval" where
  "num_add (Num m) (Num n) = Num (m + n)"
| "num_add (Num m) PosInf = PosInf"
| "num_add (Num m) NegInf = NegInf"
| "num_add PosInf (Num n) = PosInf"
| "num_add NegInf (Num n) = NegInf"
| "num_add PosInf PosInf = PosInf"
| "num_add NegInf NegInf = NegInf"
| "num_add _ _ = NaN"

definition js_add :: "jsval \<Rightarrow> jsval \<Rightarrow> jsval" where
  "js_add v w = num_add (to_number v) (to_number w)"

text \<open>\<open>Math.floor(v / w)\<close>, the only division of the source. The accumulators start at
  \<open>+0\<close> and never become \<open>-0\<close>, so a zero divisor is \<open>+0\<close>: the quotient is an infinity
  with the sign of the dividend, or \<open>NaN\<close> for \<open>0 / 0\<close>. \<open>Math.floor\<close> leaves
  \<open>NaN\<close> and the infinities as they are; a finite number over an infinity is a zero,
  and a zero of either sign is stored as 0.\<close>

fun num_floor_div :: "jsval \<Rightarrow> jsval \<Rightarrow> jsval" where
  "num_floor_div (Num m) (Num n) =
     (if n = 0 then (if 0 < m then PosInf else if m < 0 then NegInf else NaN)
      else Num (m div n))"
| "num_floor_div (Num m) PosInf = Num 0"
| "num_floor_div (Num m) NegInf = Num 0"
| "num_floor_div PosInf (Num n) = (if n < 0 then NegInf else PosInf)"
| "num_floor_div NegInf (Num n) = (if n < 0 then PosInf else NegInf)"
| "num_floor_div _ _ = NaN"

definition floor_div :: "jsval \<Rightarrow> jsval \<Rightarrow> jsval" where
  "floor_div v w = num_floor_div (to_number v) (to_number w)"

text \<open>The test \<open>v.constructor === Number\<close> on a value that is not \<open>undefined\<close>.\<close>

fun is_Number :: "jsval \<Rightarrow> bool" where
  "is_Number (Num n) = True"
| "is_Number NaN = True"
| "is_Number PosInf = True"
| "is_Number NegInf = True"
| "is_Number _ = False"

text \<open>An array read \<open>xs[i]\<close>: \<open>undefined\<close> past the end.\<close>

definition js_index :: "jsval list \<Rightarrow> nat \<Rightarrow> jsval" where
  "js_index xs i = (if i < length xs then xs ! i else Undefined)"

section \<open>Pixel and ImageData (base file)\<close>

text \<open>\<open>imgproc.Pixel\<close>: the constructor switches on the number of arguments.\<close>

fun new_Pixel :: "jsval list \<Rightarrow> jsval" where
  "new_Pixel [] = Pixel (Num 0) (Num 0) (Num 0) (Num 255)"
| "new_Pixel [n] = Pixel n n n (Num 255)"
| "new_Pixel [n, a] = Pixel n n n a"
| "new_Pixel [r, g, b] = Pixel r g b (Num 255)"
| "new_Pixel (r # g # b # a # rest) = Pixel r g b a"

text \<open>\<open>ImageData\<close>: \<open>data\<close> is a \<open>Uint8ClampedArray\<close>, four bytes per pixel.\<close>

record ImageData =
  width :: nat
  height :: nat
  data :: "8 word list"


definition getPixelLocation :: "ImageData \<Rightarrow> int \<Rightarrow> int \<Rightarrow> int" where
  "getPixelLocation imgData x y = (y * int (width imgData) + x) * 4"

text \<open>A typed-array read: the byte as a Number, \<open>undefined\<close> outside the array.\<close>

definition data_at :: "8 word list \<Rightarrow> int \<Rightarrow> jsval" where
  "data_at d i = (if 0 \<le> i \<and> nat i < length d then Num (uint (d ! nat i)) else Undefined)"

definition getPixel :: "ImageData \<Rightarrow> int \<Rightarrow> int \<Rightarrow> jsval" where
  "getPixel imgData x y =
     (let pl = getPixelLocation imgData x y
      in new_Pixel [data_at (data imgData) pl, data_at (data imgData) (pl + 1),
                    data_at (data imgData) (pl + 2), data_at (data imgData) (pl + 3)])"

text \<open>A write into a \<open>Uint8ClampedArray\<close>: the value is converted by \<open>ToUint8Clamp\<close>
  (\<open>NaN\<close> becomes 0, the rest is clamped to 0..255), and a write outside the array is
  ignored.\<close>

fun to_uint8_clamp :: "jsval \<Rightarrow> 8 word" where
  "to_uint8_clamp (Num n) = (if n \<le> 0 then 0 else if 255 \<le> n then 255 else word_of_int n)"
| "to_uint8_clamp PosInf = 255"
| "to_uint8_clamp _ = 0"

definition data_set :: "8 word list \<Rightarrow> int \<Rightarrow> jsval \<Rightarrow> 8 word list" where
  "data_set d i v = (if 0 \<le> i \<and> nat i < length d then d[nat i := to_uint8_clamp v] else d)"

text \<open>\<open>new ImageData(w, h)\<close>: a zeroed buffer; the host rejects a zero dimension.\<close>

definition new_ImageData :: "nat \<Rightarrow> nat \<Rightarrow> error + ImageData" where
  "new_ImageData w h =
     (if w = 0 \<or> h = 0 then Inl IndexSizeError
      else Inr \<lparr>width = w, height = h, data = replicate (4 * w * h) 0\<rparr>)"

section \<open>The convolution\<close>

text \<open>The area handed to a kernel generator, with the fields of the object literal
  (prefixed, since \<open>top\<close> is taken).\<close>

record area =
  area_left :: int
  area_top :: int
  area_right :: int
  area_bottom :: int
  area_center :: "int \<times> int"
  area_pixels :: "jsval list list"

text \<open>The kernel source is an array of rows or a function of the area. A generator is a
  mathematical function here: it has no effects of its own and answers with a fresh array
  each time (the promotion of an answer cannot be seen in a later one).\<close>

datatype kernel_source =
    Static "jsval list list"
  | Generator "area \<Rightarrow> jsval list list"

text \<open>The image source, by its constructor: a canvas context, an ImageData, or anything
  else, of which only the constructor's name is used.\<close>

datatype source =
    CanvasRenderingContext2D
  | ImageDataSource ImageData
  | OtherSource string

text \<open>The globals the function touches: \<open>wnd.CONV_IMG_DATA\<close> and
  \<open>imgproc.defaults.kernel_size\<close>.\<close>

record window =
  CONV_IMG_DATA :: "ImageData option"
  defaults_kernel_size :: int

text \<open>Loading the file sets the default kernel size.\<close>

definition load_convolution :: "window \<Rightarrow> window" where
  "load_convolution wnd = wnd\<lparr>defaults_kernel_size := 5\<rparr>"

text \<open>The area around \<open>(x, y)\<close>: the window of half-size \<open>half_size\<close>, each edge clipped on
  its own, and the pixels inside it, row by row.\<close>

definition make_area :: "ImageData \<Rightarrow> int \<Rightarrow> int \<Rightarrow> int \<Rightarrow> area" where
  "make_area imgData half_size x y =
     (let l = x - half_size;
          t = y - half_size;
          r = x + half_size;
          b = y + half_size;
          l = (if l < 0 then 0 else l);
          t = (if t < 0 then 0 else t);
          r = (if int (width imgData) \<le> r then int (width imgData) - 1 else r);
          b = (if int (height imgData) \<le> b then int (height imgData) - 1 else b)
      in \<lparr>area_left = l, area_top = t, area_right = r, area_bottom = b,
          area_center = (x, y),
          area_pixels = map (\<lambda>ay. map (\<lambda>ax. getPixel imgData ax ay) [l..r]) [t..b]\<rparr>)"

text \<open>\<open>kernel[0][0].constructor\<close>: throws when the kernel has no row, when its first row
  has no cell, or when that cell is \<open>undefined\<close>.\<close>

definition first_cell :: "jsval list list \<Rightarrow> error + jsval" where
  "first_cell kern =
     (case kern of
        [] \<Rightarrow> Inl TypeError
      | row # _ \<Rightarrow>
          (case row of
             [] \<Rightarrow> Inl TypeError
           | c # _ \<Rightarrow> if c = Undefined then Inl TypeError else Inr c))"

text \<open>The promotion loop: every cell becomes \<open>new imgproc.Pixel(cell)\<close>.\<close>

definition promote :: "jsval list list \<Rightarrow> jsval list list" where
  "promote kern = map (map (\<lambda>c. new_Pixel [c])) kern"

text \<open>The body of the accumulation loop for one cell, on the pair
  \<open>(area_sum, kernel_sum)\<close>.\<close>

definition accumulate_cell :: "jsval \<times> jsval \<Rightarrow> jsval \<Rightarrow> jsval \<Rightarrow> error + jsval \<times> jsval" where
  "accumulate_cell acc apixel kpixel =
     (if apixel = Undefined \<or> kpixel = Undefined then Inl TypeError
      else
        (let area_sum = fst acc; kernel_sum = snd acc
         in Inr (Pixel (js_add (chan_r area_sum) (js_mul (chan_r apixel) (chan_r kpixel)))
                       (js_add (chan_g area_sum) (js_mul (chan_g apixel) (chan_g kpixel)))
                       (js_add (chan_b area_sum) (js_mul (chan_b apixel) (chan_b kpixel)))
                       (chan_a area_sum),
                 Pixel (js_add (chan_r kernel_sum) (chan_r kpixel))
                       (js_add (chan_g kernel_sum) (chan_g kpixel))
                       (js_add (chan_b kernel_sum) (chan_b kpixel))
                       (chan_a kernel_sum))))"

text \<open>The inner loop over \<open>i\<close>. The kernel row is \<open>None\<close> when \<open>kernel[j]\<close> is
  \<open>undefined\<close>; indexing it throws.\<close>

fun accumulate_row ::
  "jsval list \<Rightarrow> jsval list option \<Rightarrow> nat list \<Rightarrow> jsval \<times> jsval \<Rightarrow> error + jsval \<times> jsval" where
  "accumulate_row arow krow [] acc = Inr acc"
| "accumulate_row arow krow (i # is) acc =
     (case krow of
        None \<Rightarrow> Inl TypeError
      | Some kr \<Rightarrow>
          (case accumulate_cell acc (js_index arow i) (js_index kr i) of
             Inl e \<Rightarrow> Inl e
           | Inr acc' \<Rightarrow> accumulate_row arow krow is acc'))"

definition kernel_row :: "jsval list list \<Rightarrow> nat \<Rightarrow> jsval list option" where
  "kernel_row kern j = (if j < length kern then Some (kern ! j) else None)"

text \<open>The outer loop over \<open>j\<close>; the inner bound is \<open>area.pixels[0].length\<close>.\<close>

fun accumulate_rows ::
  "jsval list list \<Rightarrow> jsval list list \<Rightarrow> nat list \<Rightarrow> jsval \<times> jsval \<Rightarrow> error + jsval \<times> jsval" where
  "accumulate_rows pixels kern [] acc = Inr acc"
| "accumulate_rows pixels kern (j # js) acc =
     (case accumulate_row (pixels ! j) (kernel_row kern j) [0..<length (pixels ! 0)] acc of
        Inl e \<Rightarrow> Inl e
      | Inr acc' \<Rightarrow> accumulate_rows pixels kern js acc')"

definition accumulate :: "jsval list list \<Rightarrow> jsval list list \<Rightarrow> error + jsval \<times> jsval" where
  "accumulate pixels kern =
     accumulate_rows pixels kern [0..<length pixels] (new_Pixel [], new_Pixel [])"

text \<open>The average pixel and its four writes into the result.\<close>

definition area_avg :: "jsval \<times> jsval \<Rightarrow> jsval" where
  "area_avg acc =
     new_Pixel [floor_div (chan_r (fst acc)) (chan_r (snd acc)),
                floor_div (chan_g (fst acc)) (chan_g (snd acc)),
                floor_div (chan_b (fst acc)) (chan_b (snd acc))]"

definition store_pixel :: "ImageData \<Rightarrow> ImageData \<Rightarrow> int \<Rightarrow> int \<Rightarrow> jsval \<Rightarrow> ImageData" where
  "store_pixel imgData resultData x y avg =
     (let pixloc = getPixelLocation imgData x y;
          d = data resultData;
          d = data_set d pixloc (chan_r avg);
          d = data_set d (pixloc + 1) (chan_g avg);
          d = data_set d (pixloc + 2) (chan_b avg);
          d = data_set d (pixloc + 3) (Num 255)
      in resultData\<lparr>data := d\<rparr>)"

text \<open>Figuring out the kernel for an area: the generator's answer or the static array,
  then the test of \<open>kernel[0][0]\<close> and the promotion of every cell.\<close>

definition kernel_of :: "kernel_source \<Rightarrow> area \<Rightarrow> jsval list list" where
  "kernel_of kernel_source area =
     (case kernel_source of Generator f \<Rightarrow> f area | Static k \<Rightarrow> k)"

definition resolve_kernel :: "kernel_source \<Rightarrow> area \<Rightarrow> error + jsval list list" where
  "resolve_kernel kernel_source area =
     (let kern = kernel_of kernel_source area
      in case first_cell kern of
           Inl e \<Rightarrow> Inl e
         | Inr c \<Rightarrow> Inr (if is_Number c then promote kern else kern))"

text \<open>One turn of the pixel loop. The kernel source is returned as the loop leaves it: a
  static kernel is the caller's own array, and the promotion assigns into it.\<close>

definition convolve_pixel ::
  "ImageData \<Rightarrow> int \<Rightarrow> kernel_source \<Rightarrow> ImageData \<Rightarrow> int \<Rightarrow> int
     \<Rightarrow> (error + ImageData) \<times> kernel_source" where
  "convolve_pixel imgData half_size kernel_source resultData x y =
     (let area = make_area imgData half_size x y
      in case resolve_kernel kernel_source area of
           Inl e \<Rightarrow> (Inl e, kernel_source)
         | Inr kern \<Rightarrow>
             (let kernel_source = (case kernel_source of
                                     Generator f \<Rightarrow> Generator f
                                   | Static k \<Rightarrow> Static kern)
              in case accumulate (area_pixels area) kern of
                   Inl e \<Rightarrow> (Inl e, kernel_source)
                 | Inr acc \<Rightarrow>
                     (Inr (store_pixel imgData resultData x y (area_avg acc)),
                      kernel_source)))"

fun loop_x ::
  "ImageData \<Rightarrow> int \<Rightarrow> nat \<Rightarrow> nat list \<Rightarrow> kernel_source \<Rightarrow> ImageData
     \<Rightarrow> (error + ImageData) \<times> kernel_source" where
  "loop_x imgData half_size y [] kernel_source resultData = (Inr resultData, kernel_source)"
| "loop_x imgData half_size y (x # xs) kernel_source resultData =
     (case convolve_pixel imgData half_size kernel_source resultData (int x) (int y) of
        (Inl e, ks) \<Rightarrow> (Inl e, ks)
      | (Inr res, ks) \<Rightarrow> loop_x imgData half_size y xs ks res)"

fun loop_y ::
  "ImageData \<Rightarrow> int \<Rightarrow> nat list \<Rightarrow> kernel_source \<Rightarrow> ImageData
     \<Rightarrow> (error + ImageData) \<times> kernel_source" where
  "loop_y imgData half_size [] kernel_source resultData = (Inr resultData, kernel_source)"
| "loop_y imgData half_size (y # ys) kernel_source resultData =
     (case loop_x imgData half_size y [0..<width imgData] kernel_source resultData of
        (Inl e, ks) \<Rightarrow> (Inl e, ks)
      | (Inr res, ks) \<Rightarrow> loop_y imgData half_size ys ks res)"

text \<open>\<open>size || (kernel_source.constructor === Array ? kernel_source.length :
  imgproc.defaults.kernel_size)\<close>; an omitted size is \<open>None\<close>, and 0 is falsy too.\<close>

definition resolve_size :: "window \<Rightarrow> kernel_source \<Rightarrow> int option \<Rightarrow> int" where
  "resolve_size wnd kernel_source size_arg =
     (let dflt = (case kernel_source of
                    Static k \<Rightarrow> int (length k)
                  | Generator f \<Rightarrow> defaults_kernel_size wnd)
      in case size_arg of
           None \<Rightarrow> dflt
         | Some n \<Rightarrow> if n = 0 then dflt else n)"

text \<open>\<open>imgproc.convolution\<close>. The result is what the call returns or throws, the
  globals after it, and the kernel source as the call leaves it. A canvas context takes
  the branch \<open>ctx.getImageData()\<close>, which names a variable the function does not
  declare.\<close>

definition convolution ::
  "window \<Rightarrow> source \<Rightarrow> kernel_source \<Rightarrow> int option
     \<Rightarrow> (error + ImageData) \<times> window \<times> kernel_source" where
  "convolution wnd src kernel_source size_arg =
     (case src of
        CanvasRenderingContext2D \<Rightarrow> (Inl ReferenceError, wnd, kernel_source)
      | OtherSource name \<Rightarrow>
          (Inl (ConvolutionError
             (''Convolution Error: image source must be either a CanvasRenderingContext2D or an ImageData; received '' @ name)),
           wnd, kernel_source)
      | ImageDataSource imgData \<Rightarrow>
          (let wnd = wnd\<lparr>CONV_IMG_DATA := Some imgData\<rparr>
           in case new_ImageData (width imgData) (height imgData) of
                Inl e \<Rightarrow> (Inl e, wnd, kernel_source)
              | Inr resultData \<Rightarrow>
                  (let size = resolve_size wnd kernel_source size_arg;
                       half_size = size div 2
                   in case loop_y imgData half_size [0..<height imgData] kernel_source resultData of
                        (res, ks) \<Rightarrow> (res, wnd, ks))))"

section \<open>The older variant (src/convolution.js)\<close>

text \<open>The file \<open>src/convolution.js\<close> defines \<open>imgproc.convolution\<close> once more, in an
  older form. It differs in three places: an omitted size is always the default kernel
  size; the kernel is used as it is, with no test of \<open>kernel[0][0]\<close> and no promotion,
  so nothing is written into it; and the bytes stored are \<open>Math.round\<close> of the floored
  averages.\<close>

text \<open>\<open>Math.round\<close> on what a floored average can be: an integer, \<open>NaN\<close> and the
  infinities are left as they are.\<close>

definition math_round :: "jsval \<Rightarrow> jsval" where
  "math_round v = to_number v"

definition store_pixel_legacy :: "ImageData \<Rightarrow> ImageData \<Rightarrow> int \<Rightarrow> int \<Rightarrow> jsval \<Rightarrow> ImageData" where
  "store_pixel_legacy imgData resultData x y avg =
     (let pixloc = getPixelLocation imgData x y;
          d = data resultData;
          d = data_set d pixloc (math_round (chan_r avg));
          d = data_set d (pixloc + 1) (math_round (chan_g avg));
          d = data_set d (pixloc + 2) (math_round (chan_b avg));
          d = data_set d (pixloc + 3) (Num 255)
      in resultData\<lparr>data := d\<rparr>)"

definition convolve_pixel_legacy ::
  "ImageData \<Rightarrow> int \<Rightarrow> kernel_source \<Rightarrow> ImageData \<Rightarrow> int \<Rightarrow> int \<Rightarrow> error + ImageData" where
  "convolve_pixel_legacy imgData half_size kernel_source resultData x y =
     (let area = make_area imgData half_size x y;
          kern = kernel_of kernel_source area
      in case accumulate (area_pixels area) kern of
           Inl e \<Rightarrow> Inl e
         | Inr acc \<Rightarrow> Inr (store_pixel_legacy imgData resultData x y (area_avg acc)))"

fun loop_x_legacy ::
  "ImageData \<Rightarrow> int \<Rightarrow> kernel_source \<Rightarrow> nat \<Rightarrow> nat list \<Rightarrow> ImageData \<Rightarrow> error + ImageData" where
  "loop_x_legacy imgData half_size kernel_source y [] resultData = Inr resultData"
| "loop_x_legacy imgData half_size kernel_source y (x # xs) resultData =
     (case convolve_pixel_legacy imgData half_size kernel_source resultData (int x) (int y) of
        Inl e \<Rightarrow> Inl e
      | Inr res \<Rightarrow> loop_x_legacy imgData half_size kernel_source y xs res)"

fun loop_y_legacy ::
  "ImageData \<Rightarrow> int \<Rightarrow> kernel_source \<Rightarrow> nat list \<Rightarrow> ImageData \<Rightarrow> error + ImageData" where
  "loop_y_legacy imgData half_size kernel_source [] resultData = Inr resultData"
| "loop_y_legacy imgData half_size kernel_source (y # ys) resultData =
     (case loop_x_legacy imgData half_size kernel_source y [0..<width imgData] resultData of
        Inl e \<Rightarrow> Inl e
      | Inr res \<Rightarrow> loop_y_legacy imgData half_size kernel_source ys res)"

text \<open>\<open>size || imgproc.defaults.kernel_size\<close>.\<close>

definition resolve_size_legacy :: "window \<Rightarrow> int option \<Rightarrow> int" where
  "resolve_size_legacy wnd size_arg =
     (case size_arg of
        None \<Rightarrow> defaults_kernel_size wnd
      | Some n \<Rightarrow> if n = 0 then defaults_kernel_size wnd else n)"

definition convolution_legacy ::
  "window \<Rightarrow> source \<Rightarrow> kernel_source \<Rightarrow> int option \<Rightarrow> (error + ImageData) \<times> window" where
  "convolution_legacy wnd src kernel_source size_arg =
     (case src of
        CanvasRenderingContext2D \<Rightarrow> (Inl ReferenceError, wnd)
      | OtherSource name \<Rightarrow>
          (Inl (ConvolutionError
             (''Convolution Error: image source must be either a CanvasRenderingContext2D or an ImageData; received '' @ name)),
           wnd)
      | ImageDataSource imgData \<Rightarrow>
          (let wnd = wnd\<lparr>CONV_IMG_DATA := Some imgData\<rparr>
           in case new_ImageData (width imgData) (height imgData) of
                Inl e \<Rightarrow> (Inl e, wnd)
              | Inr resultData \<Rightarrow>
                  (let size = resolve_size_legacy wnd size_arg;
                       half_size = size div 2
                   in (loop_y_legacy imgData half_size kernel_source [0..<height imgData] resultData,
                       wnd))))"

section \<open>Notions used to state the properties\<close>

text \<open>None of these is code of the repository. They name what one turn of the pixel
  loop computes, so that the loops can be described: the kernel source as the first turn
  leaves it, the average pixel of a coordinate, the result buffer painted coordinate by
  coordinate, and the four bytes of one pixel in a buffer; and they name the inputs and
  the quantities the properties speak of.\<close>

definition promoted :: "kernel_source \<Rightarrow> kernel_source" where
  "promoted ks =
     (case ks of
        Generator f \<Rightarrow> Generator f
      | Static k \<Rightarrow>
          (case first_cell k of
             Inl e \<Rightarrow> Static k
           | Inr c \<Rightarrow> Static (if is_Number c then promote k else k)))"

definition pixel_avg :: "ImageData \<Rightarrow> int \<Rightarrow> kernel_source \<Rightarrow> int \<Rightarrow> int \<Rightarrow> error + jsval" where
  "pixel_avg imgData half_size ks x y =
     (let area = make_area imgData half_size x y
      in case resolve_kernel ks area of
           Inl e \<Rightarrow> Inl e
         | Inr kern \<Rightarrow>
             (case accumulate (area_pixels area) kern of
                Inl e \<Rightarrow> Inl e
              | Inr acc \<Rightarrow> Inr (area_avg acc)))"

definition avg_of :: "ImageData \<Rightarrow> int \<Rightarrow> kernel_source \<Rightarrow> nat \<Rightarrow> nat \<Rightarrow> jsval" where
  "avg_of img h ks x y = (case pixel_avg img h ks (int x) (int y) of Inl e \<Rightarrow> Undefined | Inr v \<Rightarrow> v)"

definition pixel_ok :: "ImageData \<Rightarrow> int \<Rightarrow> kernel_source \<Rightarrow> nat \<Rightarrow> nat \<Rightarrow> bool" where
  "pixel_ok img h ks x y = (case pixel_avg img h ks (int x) (int y) of Inl e \<Rightarrow> False | Inr v \<Rightarrow> True)"

definition paint_row :: "ImageData \<Rightarrow> int \<Rightarrow> kernel_source \<Rightarrow> nat \<Rightarrow> ImageData \<Rightarrow> nat list \<Rightarrow> ImageData" where
  "paint_row img h ks y res xs =
     foldl (\<lambda>r x. store_pixel img r (int x) (int y) (avg_of img h ks x y)) res xs"

definition paint_rows :: "ImageData \<Rightarrow> int \<Rightarrow> kernel_source \<Rightarrow> ImageData \<Rightarrow> nat list \<Rightarrow> ImageData" where
  "paint_rows img h ks res ys =
     foldl (\<lambda>r y. paint_row img h ks y r [0..<width img]) res ys"

definition block :: "8 word list \<Rightarrow> nat \<Rightarrow> 8 word list" where
  "block d n = [d ! (4 * n), d ! (4 * n + 1), d ! (4 * n + 2), d ! (4 * n + 3)]"

definition bytes_of :: "jsval \<Rightarrow> 8 word list" where
  "bytes_of avg = [to_uint8_clamp (chan_r avg), to_uint8_clamp (chan_g avg), to_uint8_clamp (chan_b avg), 255]"



text \<open>The buffer \<open>new ImageData(imgData.width, imgData.height)\<close> before any write.\<close>

definition blank :: "ImageData \<Rightarrow> ImageData" where
  "blank img = \<lparr>width = width img, height = height img,
                 data = replicate (4 * width img * height img) 0\<rparr>"

text \<open>A kernel with every scalar cell \<open>n\<close> written out as the weight
  \<open>(n, n, n, 255)\<close>, and the kernel sources all of whose cells are numbers.\<close>

definition explicit_weights :: "jsval list list \<Rightarrow> jsval list list" where
  "explicit_weights k = map (map (\<lambda>n. new_Pixel [n, n, n, Num 255])) k"

definition with_explicit_weights :: "kernel_source \<Rightarrow> kernel_source" where
  "with_explicit_weights ks =
     (case ks of
        Static k \<Rightarrow> Static (explicit_weights k)
      | Generator f \<Rightarrow> Generator (\<lambda>a. explicit_weights (f a)))"

definition scalar_cells :: "jsval list list \<Rightarrow> bool" where
  "scalar_cells k \<longleftrightarrow> (\<forall>row\<in>set k. \<forall>n\<in>set row. is_Number n)"

definition scalar_kernel_source :: "kernel_source \<Rightarrow> bool" where
  "scalar_kernel_source ks \<longleftrightarrow>
     (case ks of Static k \<Rightarrow> scalar_cells k | Generator f \<Rightarrow> \<forall>a. scalar_cells (f a))"

text \<open>The kernel fits a grid of area pixels: \<open>kernel[0][0]\<close> can be tested, and every
  cell the accumulation loop reads exists and is not \<open>undefined\<close>.\<close>

definition kernel_fits :: "jsval list list \<Rightarrow> jsval list list \<Rightarrow> bool" where
  "kernel_fits kern pixels \<longleftrightarrow>
     (\<exists>c. first_cell kern = Inr c)
     \<and> (\<forall>j<length pixels. j < length kern
           \<and> (\<forall>i<length (pixels ! 0). i < length (kern ! j) \<and> kern ! j ! i \<noteq> Undefined))"




section \<open>Example inputs\<close>

definition img1 :: ImageData where
  "img1 = \<lparr>width = 1, height = 1, data = [7, 8, 9, 200]\<rparr>"

definition wnd0 :: window where
  "wnd0 = \<lparr>CONV_IMG_DATA = None, defaults_kernel_size = 5\<rparr>"

text \<open>The image of the concrete scenario; \<open>other\<close> gives the bytes that are not red
  channels.\<close>

definition scenario_image :: "(nat \<Rightarrow> 8 word) \<Rightarrow> ImageData" where
  "scenario_image other =
     \<lparr>width = 3, height = 3,
      data = [10, other 1, other 2, other 3, 20, other 5, other 6, other 7,
              30, other 9, other 10, other 11, 40, other 13, other 14, other 15,
              50, other 17, other 18, other 19, 60, other 21, other 22, other 23,
              70, other 25, other 26, other 27, 80, other 29, other 30, other 31,
              90, other 33, other 34, other 35]\<rparr>"

definition all_ones :: "jsval list list" where
  "all_ones = [[Num 1, Num 1, Num 1], [Num 1, Num 1, Num 1], [Num 1, Num 1, Num 1]]"

definition img2 :: ImageData where
  "img2 = \<lparr>width = 2, height = 1, data = [10, 5, 9, 255, 30, 5, 1, 255]\<rparr>"

section \<open>One turn of the pixel loop\<close>

lemma first_cell_promote:
  "first_cell k = Inr c \<Longrightarrow> first_cell (promote k) = Inr (new_Pixel [c])"
  by (auto simp: first_cell_def promote_def split: list.splits if_splits)

lemma resolve_kernel_promoted:
  "resolve_kernel (promoted ks) area = resolve_kernel ks area"
  by (auto simp: resolve_kernel_def kernel_of_def promoted_def first_cell_promote split: kernel_source.splits sum.splits)

lemma promoted_idem: "promoted (promoted ks) = promoted ks"
  by (auto simp: promoted_def first_cell_promote split: kernel_source.splits sum.splits)

lemma pixel_avg_promoted: "pixel_avg img h (promoted ks) x y = pixel_avg img h ks x y"
  by (simp add: pixel_avg_def resolve_kernel_promoted)

lemma convolve_pixel_eq:
  "convolve_pixel img h ks res x y =
     (case pixel_avg img h ks x y of
        Inl e \<Rightarrow> Inl e
      | Inr avg \<Rightarrow> Inr (store_pixel img res x y avg), promoted ks)"
  by (auto simp: convolve_pixel_def pixel_avg_def promoted_def resolve_kernel_def kernel_of_def Let_def
      split: kernel_source.splits sum.splits)

lemma accumulate_cell_error: "accumulate_cell s a k = Inl e \<Longrightarrow> e = TypeError"
  by (auto simp: accumulate_cell_def Let_def split: if_splits)

lemma accumulate_row_error: "accumulate_row ar kr is s = Inl e \<Longrightarrow> e = TypeError"
  by (induction ar kr "is" s rule: accumulate_row.induct)
     (auto split: option.splits sum.splits dest: accumulate_cell_error)

lemma accumulate_rows_error: "accumulate_rows p k js s = Inl e \<Longrightarrow> e = TypeError"
  by (induction p k js s rule: accumulate_rows.induct)
     (auto split: sum.splits dest: accumulate_row_error)

lemma pixel_avg_error: "pixel_avg img h ks x y = Inl e \<Longrightarrow> e = TypeError"
  by (auto simp: pixel_avg_def Let_def resolve_kernel_def kernel_of_def first_cell_def accumulate_def
      split: sum.splits list.splits if_splits dest: accumulate_rows_error)

lemma pixel_ok_promoted: "pixel_ok img h (promoted ks) x y = pixel_ok img h ks x y"
  by (simp add: pixel_ok_def pixel_avg_promoted)

lemma avg_of_promoted: "avg_of img h (promoted ks) x y = avg_of img h ks x y"
  by (simp add: avg_of_def pixel_avg_promoted)

lemma paint_row_promoted: "paint_row img h (promoted ks) y res xs = paint_row img h ks y res xs"
  by (simp add: paint_row_def avg_of_promoted)


lemma convolve_pixel_ok:
  "pixel_ok img h ks x y \<Longrightarrow>
     convolve_pixel img h ks res (int x) (int y) =
       (Inr (store_pixel img res (int x) (int y) (avg_of img h ks x y)), promoted ks)"
  by (auto simp: convolve_pixel_eq pixel_ok_def avg_of_def split: sum.splits)

lemma convolve_pixel_not_ok:
  "\<not> pixel_ok img h ks x y \<Longrightarrow>
     convolve_pixel img h ks res (int x) (int y) = (Inl TypeError, promoted ks)"
  by (auto simp: convolve_pixel_eq pixel_ok_def split: sum.splits dest: pixel_avg_error)

section \<open>The two pixel loops\<close>

lemma loop_x_eq:
  "loop_x img h y xs ks res =
     (if \<forall>x\<in>set xs. pixel_ok img h ks x y then Inr (paint_row img h ks y res xs)
      else Inl TypeError,
      if xs = [] then ks else promoted ks)"
proof (induction xs arbitrary: ks res)
  case Nil
  show ?case by (simp add: paint_row_def)
next
  case (Cons x xs)
  show ?case
  proof (cases "pixel_ok img h ks x y")
    case True
    then show ?thesis
      using Cons.IH [of "promoted ks"]
      by (simp add: convolve_pixel_ok pixel_ok_promoted promoted_idem paint_row_def avg_of_promoted)
  next
    case False
    then show ?thesis by (simp add: convolve_pixel_not_ok)
  qed
qed

lemma loop_y_eq:
  "loop_y img h ys ks res =
     (if \<forall>y\<in>set ys. \<forall>x<width img. pixel_ok img h ks x y then Inr (paint_rows img h ks res ys)
      else Inl TypeError,
      if ys = [] \<or> width img = 0 then ks else promoted ks)"
proof (induction ys arbitrary: ks res)
  case Nil
  show ?case by (simp add: paint_rows_def)
next
  case (Cons y ys)
  show ?case
  proof (cases "\<forall>x<width img. pixel_ok img h ks x y")
    case True
    show ?thesis
    proof (cases "width img = 0")
      case True
      then show ?thesis
        using Cons.IH [of ks] by (simp add: loop_x_eq paint_rows_def)
    next
      case False
      with True show ?thesis
        using Cons.IH [of "promoted ks"]
        by (auto simp: loop_x_eq pixel_ok_promoted promoted_idem paint_rows_def paint_row_promoted)
    qed
  next
    case False
    then show ?thesis by (auto simp: loop_x_eq)
  qed
qed

section \<open>Writes into the result buffer\<close>

lemma getPixelLocation_nat:
  "getPixelLocation img (int x) (int y) = int (4 * (y * width img + x))"
  by (simp add: getPixelLocation_def algebra_simps)

lemma store_pixel_fields [simp]:
  "width (store_pixel img res x y avg) = width res"
  "height (store_pixel img res x y avg) = height res"
  "length (data (store_pixel img res x y avg)) = length (data res)"
  by (simp_all add: store_pixel_def Let_def data_set_def)

lemma store_pixel_data:
  assumes "4 * (y * width img + x) + 3 < length (data res)"
  shows "data (store_pixel img res (int x) (int y) avg) =
           (data res)[4 * (y * width img + x) := to_uint8_clamp (chan_r avg),
                      4 * (y * width img + x) + 1 := to_uint8_clamp (chan_g avg),
                      4 * (y * width img + x) + 2 := to_uint8_clamp (chan_b avg),
                      4 * (y * width img + x) + 3 := 255]"
proof -
  define n where "n = y * width img + x"
  have loc: "getPixelLocation img (int x) (int y) = int (4 * n)"
    by (simp add: getPixelLocation_nat n_def)
  have idx: "nat (int (4 * n) + 1) = 4 * n + 1" "nat (int (4 * n) + 2) = 4 * n + 2"
    "nat (int (4 * n) + 3) = 4 * n + 3"
    by linarith+
  have "4 * n + 3 < length (data res)"
    using assms by (simp add: n_def)
  then have "data (store_pixel img res (int x) (int y) avg) =
           (data res)[4 * n := to_uint8_clamp (chan_r avg),
                      4 * n + 1 := to_uint8_clamp (chan_g avg),
                      4 * n + 2 := to_uint8_clamp (chan_b avg),
                      4 * n + 3 := 255]"
    unfolding store_pixel_def Let_def data_set_def loc idx
    by (simp add: nat_mult_distrib)
  then show ?thesis by (simp add: n_def)
qed

lemma block_store_pixel:
  assumes "4 * (y * width img + x) + 3 < length (data res)"
  shows "block (data (store_pixel img res (int x) (int y) avg)) m =
           (if m = y * width img + x then bytes_of avg else block (data res) m)"
  using assms by (auto simp: store_pixel_data block_def bytes_of_def nth_list_update)

lemma pixel_index_bound:
  assumes "x < W" "y < H"
  shows "4 * (y * W + x) + 3 < 4 * W * (H::nat)"
proof -
  have "y * W + x < Suc y * W" using assms by simp
  also have "\<dots> \<le> H * W" using assms by (intro mult_le_mono1) simp
  finally show ?thesis by (simp add: mult.commute)
qed

lemma paint_row_props:
  assumes "length (data res) = 4 * width img * height img" "y < height img"
    "\<forall>x\<in>set xs. x < width img"
  shows "width (paint_row img h ks y res xs) = width res
       \<and> height (paint_row img h ks y res xs) = height res
       \<and> length (data (paint_row img h ks y res xs)) = length (data res)
       \<and> (\<forall>m. block (data (paint_row img h ks y res xs)) m =
             (if \<exists>x\<in>set xs. m = y * width img + x
              then bytes_of (avg_of img h ks (m - y * width img) y)
              else block (data res) m))"
  using assms(3)
proof (induction xs rule: rev_induct)
  case Nil
  show ?case by (simp add: paint_row_def)
next
  case (snoc x xs)
  let ?r = "paint_row img h ks y res xs"
  have ih: "width ?r = width res" "height ?r = height res" "length (data ?r) = length (data res)"
    "\<And>m. block (data ?r) m =
             (if \<exists>x\<in>set xs. m = y * width img + x
              then bytes_of (avg_of img h ks (m - y * width img) y)
              else block (data res) m)"
    using snoc by auto
  have x: "x < width img" using snoc.prems by simp
  have bound: "4 * (y * width img + x) + 3 < length (data ?r)"
    using pixel_index_bound [OF x assms(2)] ih(3) assms(1) by simp
  have step: "paint_row img h ks y res (xs @ [x]) =
      store_pixel img ?r (int x) (int y) (avg_of img h ks x y)"
    by (simp add: paint_row_def)
  show ?case
    unfolding step
    by (auto simp: block_store_pixel [OF bound] ih)
qed

lemma paint_rows_props:
  assumes "length (data res) = 4 * width img * height img"
    "\<forall>y\<in>set ys. y < height img"
  shows "width (paint_rows img h ks res ys) = width res
       \<and> height (paint_rows img h ks res ys) = height res
       \<and> length (data (paint_rows img h ks res ys)) = length (data res)
       \<and> (\<forall>m. block (data (paint_rows img h ks res ys)) m =
             (if \<exists>y\<in>set ys. \<exists>x<width img. m = y * width img + x
              then bytes_of (avg_of img h ks (m mod width img) (m div width img))
              else block (data res) m))"
  using assms(2)
proof (induction ys rule: rev_induct)
  case Nil
  show ?case by (simp add: paint_rows_def)
next
  case (snoc y ys)
  let ?r = "paint_rows img h ks res ys"
  have ih: "width ?r = width res" "height ?r = height res" "length (data ?r) = length (data res)"
    "\<And>m. block (data ?r) m =
             (if \<exists>y\<in>set ys. \<exists>x<width img. m = y * width img + x
              then bytes_of (avg_of img h ks (m mod width img) (m div width img))
              else block (data res) m)"
    using snoc by auto
  have y: "y < height img" using snoc.prems by simp
  have step: "paint_rows img h ks res (ys @ [y]) = paint_row img h ks y ?r [0..<width img]"
    by (simp add: paint_rows_def)
  have len: "length (data ?r) = 4 * width img * height img"
    using ih(3) assms(1) by simp
  note row = paint_row_props [OF len y, of "[0..<width img]" h ks, simplified]
  show ?case
    unfolding step
    by (auto simp: row ih)
qed

section \<open>Accumulation over numeric pixels\<close>





section \<open>The whole call\<close>

lemma resolve_size_CONV [simp]:
  "resolve_size (wnd\<lparr>CONV_IMG_DATA := v\<rparr>) ks sz = resolve_size wnd ks sz"
  by (cases ks) (simp_all add: resolve_size_def)

lemma convolution_ImageData:
  assumes "0 < width img" "0 < height img"
  shows "convolution wnd (ImageDataSource img) ks sz =
    (if \<forall>y<height img. \<forall>x<width img. pixel_ok img (resolve_size wnd ks sz div 2) ks x y
     then Inr (paint_rows img (resolve_size wnd ks sz div 2) ks (blank img) [0..<height img])
     else Inl TypeError,
     wnd\<lparr>CONV_IMG_DATA := Some img\<rparr>, promoted ks)"
  using assms
  by (simp add: convolution_def new_ImageData_def loop_y_eq blank_def Let_def)

lemma convolution_zero_dim:
  assumes "width img = 0 \<or> height img = 0"
  shows "convolution wnd (ImageDataSource img) ks sz =
    (Inl IndexSizeError, wnd\<lparr>CONV_IMG_DATA := Some img\<rparr>, ks)"
  using assms
  by (auto simp add: convolution_def new_ImageData_def)

lemma convolution_Inr:
  assumes "fst (convolution wnd (ImageDataSource img) ks sz) = Inr res"
  shows "0 < width img" "0 < height img"
    "\<forall>y<height img. \<forall>x<width img. pixel_ok img (resolve_size wnd ks sz div 2) ks x y"
    "res = paint_rows img (resolve_size wnd ks sz div 2) ks (blank img) [0..<height img]"
proof -
  have "\<not> (width img = 0 \<or> height img = 0)"
  proof
    assume z: "width img = 0 \<or> height img = 0"
    show False using assms by (simp add: convolution_zero_dim [OF z])
  qed
  then show w: "0 < width img" and h: "0 < height img"
    by simp_all
  show "\<forall>y<height img. \<forall>x<width img. pixel_ok img (resolve_size wnd ks sz div 2) ks x y"
    "res = paint_rows img (resolve_size wnd ks sz div 2) ks (blank img) [0..<height img]"
    using assms by (auto simp: convolution_ImageData [OF w h] split: if_splits)
qed

lemma paint_rows_blank:
  "width (paint_rows img h ks (blank img) [0..<height img]) = width img"
  "height (paint_rows img h ks (blank img) [0..<height img]) = height img"
  "length (data (paint_rows img h ks (blank img) [0..<height img])) = 4 * width img * height img"
  "x < width img \<Longrightarrow> y < height img \<Longrightarrow>
     block (data (paint_rows img h ks (blank img) [0..<height img])) (y * width img + x) =
       bytes_of (avg_of img h ks x y)"
proof -
  have len: "length (data (blank img)) = 4 * width img * height img"
    by (simp add: blank_def)
  have ys: "\<forall>y\<in>set [0..<height img]. y < height img" by simp
  note p = paint_rows_props [OF len ys, of h ks]
  show "width (paint_rows img h ks (blank img) [0..<height img]) = width img"
    "height (paint_rows img h ks (blank img) [0..<height img]) = height img"
    "length (data (paint_rows img h ks (blank img) [0..<height img])) = 4 * width img * height img"
    using p by (simp_all add: blank_def)
  assume "x < width img" "y < height img"
  then show "block (data (paint_rows img h ks (blank img) [0..<height img])) (y * width img + x) =
       bytes_of (avg_of img h ks x y)"
    using p by auto
qed

section \<open>The concrete scenario\<close>

lemma ok_scn: "x < 3 \<Longrightarrow> y < 3 \<Longrightarrow> pixel_ok (scenario_image other) 1 (Static all_ones) x y"
proof -
  assume "x < 3" "y < 3"
  then have "x \<in> {0, 1, 2}" "y \<in> {0, 1, 2}" by auto
  then show ?thesis
    by (auto simp add: pixel_ok_def pixel_avg_def make_area_def scenario_image_def Let_def getPixel_def getPixelLocation_def data_at_def upto.simps
      resolve_kernel_def kernel_of_def all_ones_def first_cell_def promote_def accumulate_def kernel_row_def js_index_def accumulate_cell_def)
qed

lemma avg_scn: "chan_r (avg_of (scenario_image other) 1 (Static all_ones) 1 1) = Num 50"
  by (simp add: avg_of_def pixel_avg_def make_area_def scenario_image_def Let_def getPixel_def getPixelLocation_def data_at_def upto.simps
      resolve_kernel_def kernel_of_def all_ones_def first_cell_def promote_def accumulate_def kernel_row_def js_index_def accumulate_cell_def
      area_avg_def floor_div_def js_add_def js_mul_def)

lemma resolve_size_Some: "n \<noteq> 0 \<Longrightarrow> resolve_size wnd ks (Some n) = n"
  by (simp add: resolve_size_def)

section \<open>Areas\<close>


lemma make_area_fields:
  "area_left (make_area img h x y) = (if x - h < 0 then 0 else x - h)"
  "area_top (make_area img h x y) = (if y - h < 0 then 0 else y - h)"
  "area_right (make_area img h x y) = (if int (width img) \<le> x + h then int (width img) - 1 else x + h)"
  "area_bottom (make_area img h x y) = (if int (height img) \<le> y + h then int (height img) - 1 else y + h)"
  "area_center (make_area img h x y) = (x, y)"
  "area_pixels (make_area img h x y) =
     map (\<lambda>ay. map (\<lambda>ax. getPixel img ax ay)
                    [area_left (make_area img h x y)..area_right (make_area img h x y)])
         [area_top (make_area img h x y)..area_bottom (make_area img h x y)]"
  by (simp_all add: make_area_def Let_def)

lemma make_area_grid:
  assumes "0 \<le> h" "0 \<le> cx" "cx < int (width img)" "0 \<le> cy" "cy < int (height img)"
  shows "area_left (make_area img h cx cy) = max 0 (cx - h)
       \<and> area_right (make_area img h cx cy) = min (int (width img) - 1) (cx + h)
       \<and> area_top (make_area img h cx cy) = max 0 (cy - h)
       \<and> area_bottom (make_area img h cx cy) = min (int (height img) - 1) (cy + h)
       \<and> int (length (area_pixels (make_area img h cx cy))) =
           area_bottom (make_area img h cx cy) - area_top (make_area img h cx cy) + 1
       \<and> (\<forall>row\<in>set (area_pixels (make_area img h cx cy)).
             int (length row) =
               area_right (make_area img h cx cy) - area_left (make_area img h cx cy) + 1)
       \<and> (\<forall>j<length (area_pixels (make_area img h cx cy)).
            \<forall>i<length (area_pixels (make_area img h cx cy) ! j).
              area_pixels (make_area img h cx cy) ! j ! i =
                getPixel img (area_left (make_area img h cx cy) + int i)
                             (area_top (make_area img h cx cy) + int j)
              \<and> 0 \<le> area_left (make_area img h cx cy) + int i
              \<and> area_left (make_area img h cx cy) + int i < int (width img)
              \<and> 0 \<le> area_top (make_area img h cx cy) + int j
              \<and> area_top (make_area img h cx cy) + int j < int (height img))"
proof -
  let ?a = "make_area img h cx cy"
  have l: "area_left ?a = max 0 (cx - h)" and r: "area_right ?a = min (int (width img) - 1) (cx + h)"
    and t: "area_top ?a = max 0 (cy - h)" and b: "area_bottom ?a = min (int (height img) - 1) (cy + h)"
    by (auto simp: make_area_fields)
  have lr: "area_left ?a \<le> area_right ?a" "0 \<le> area_left ?a" "area_right ?a < int (width img)"
    and tb: "area_top ?a \<le> area_bottom ?a" "0 \<le> area_top ?a" "area_bottom ?a < int (height img)"
    using assms unfolding l r t b by auto
  have px: "area_pixels ?a = map (\<lambda>ay. map (\<lambda>ax. getPixel img ax ay) [area_left ?a..area_right ?a])
         [area_top ?a..area_bottom ?a]"
    by (rule make_area_fields)
  have rows: "int (length (area_pixels ?a)) = area_bottom ?a - area_top ?a + 1"
    using tb by (simp add: px)
  have cols: "\<forall>row\<in>set (area_pixels ?a). int (length row) = area_right ?a - area_left ?a + 1"
    using lr by (auto simp: px)
  have cells: "\<forall>j<length (area_pixels ?a). \<forall>i<length (area_pixels ?a ! j).
              area_pixels ?a ! j ! i = getPixel img (area_left ?a + int i) (area_top ?a + int j)
              \<and> 0 \<le> area_left ?a + int i \<and> area_left ?a + int i < int (width img)
              \<and> 0 \<le> area_top ?a + int j \<and> area_top ?a + int j < int (height img)"
  proof (intro allI impI)
    fix j i assume j: "j < length (area_pixels ?a)" and i: "i < length (area_pixels ?a ! j)"
    from j have j': "area_top ?a + int j \<le> area_bottom ?a" using rows by linarith
    from j have rowj: "area_pixels ?a ! j = map (\<lambda>ax. getPixel img ax (area_top ?a + int j)) [area_left ?a..area_right ?a]"
      by (subst px) (use j px in \<open>simp\<close>)
    from i have i': "area_left ?a + int i \<le> area_right ?a"
      unfolding rowj using lr by simp
    have "area_pixels ?a ! j ! i = getPixel img (area_left ?a + int i) (area_top ?a + int j)"
      unfolding rowj using i' i by (simp add: rowj)
    then show "area_pixels ?a ! j ! i = getPixel img (area_left ?a + int i) (area_top ?a + int j)
              \<and> 0 \<le> area_left ?a + int i \<and> area_left ?a + int i < int (width img)
              \<and> 0 \<le> area_top ?a + int j \<and> area_top ?a + int j < int (height img)"
      using i' j' lr tb by simp
  qed
  show ?thesis using l r t b rows cols cells by blast
qed

section \<open>What a call leaves behind\<close>

lemma length_promote [simp]: "length (promote k) = length k"
  by (simp add: promote_def)

lemma resolve_size_promoted [simp]: "resolve_size wnd (promoted ks) sz = resolve_size wnd ks sz"
  by (cases ks) (auto simp: resolve_size_def promoted_def split: sum.splits)

lemma convolution_snd:
  "snd (convolution wnd (ImageDataSource img) ks sz) =
     (wnd\<lparr>CONV_IMG_DATA := Some img\<rparr>,
      if width img = 0 \<or> height img = 0 then ks else promoted ks)"
proof (cases "width img = 0 \<or> height img = 0")
  case True
  then show ?thesis by (simp add: convolution_zero_dim)
next
  case False
  then show ?thesis by (simp add: convolution_ImageData)
qed

section \<open>Kernel sources that resolve alike\<close>

lemma pixel_avg_cong:
  assumes "\<And>a. resolve_kernel ks a = resolve_kernel ks' a"
  shows "pixel_avg img h ks x y = pixel_avg img h ks' x y"
  by (simp add: pixel_avg_def assms)

lemma paint_rows_cong:
  assumes "\<And>x y. pixel_avg img h ks x y = pixel_avg img h ks' x y"
  shows "paint_rows img h ks res ys = paint_rows img h ks' res ys"
  by (simp add: paint_rows_def paint_row_def avg_of_def assms)

lemma convolution_fst_cong:
  assumes "\<And>a. resolve_kernel ks a = resolve_kernel ks' a"
    "resolve_size wnd ks sz = resolve_size wnd' ks' sz'"
  shows "fst (convolution wnd src ks sz) = fst (convolution wnd' src ks' sz')"
proof (cases src)
  case CanvasRenderingContext2D
  then show ?thesis by (simp add: convolution_def)
next
  case (OtherSource name)
  then show ?thesis by (simp add: convolution_def)
next
  case (ImageDataSource img)
  show ?thesis
  proof (cases "width img = 0 \<or> height img = 0")
    case True
    then show ?thesis by (simp add: ImageDataSource convolution_zero_dim)
  next
    case False
    then have wh: "0 < width img" "0 < height img" by simp_all
    have avg: "pixel_avg img h ks x y = pixel_avg img h ks' x y" for h x y
      by (rule pixel_avg_cong) (rule assms(1))
    show ?thesis
      unfolding ImageDataSource convolution_ImageData [OF wh] assms(2)
      by (simp add: pixel_ok_def avg paint_rows_cong [OF avg])
  qed
qed

lemma explicit_weights_promote: "explicit_weights k = promote k"
  by (simp add: explicit_weights_def promote_def)

lemma resolve_scalar_cells:
  assumes "scalar_cells k"
  shows "(case first_cell k of Inl e \<Rightarrow> Inl e | Inr c \<Rightarrow> Inr (if is_Number c then promote k else k)) =
         (case first_cell (promote k) of Inl e \<Rightarrow> Inl e
          | Inr c \<Rightarrow> Inr (if is_Number c then promote (promote k) else promote k))"
proof (cases "first_cell k")
  case (Inl e)
  then show ?thesis
    using assms
    by (auto simp: first_cell_def promote_def scalar_cells_def split: list.splits if_splits)
next
  case (Inr c)
  then have "c \<in> set (hd k)" "hd k \<in> set k"
    by (auto simp: first_cell_def split: list.splits if_splits)
  then have "is_Number c" using assms by (auto simp: scalar_cells_def)
  then show ?thesis
    by (simp add: Inr first_cell_promote)
qed

lemma resolve_kernel_explicit:
  assumes "scalar_kernel_source ks"
  shows "resolve_kernel ks a = resolve_kernel (with_explicit_weights ks) a"
proof (cases ks)
  case (Static k)
  then have "scalar_cells k" using assms by (simp add: scalar_kernel_source_def)
  from resolve_scalar_cells [OF this] show ?thesis
    by (simp add: Static resolve_kernel_def kernel_of_def with_explicit_weights_def explicit_weights_promote Let_def)
next
  case (Generator f)
  then have "scalar_cells (f a)" using assms by (simp add: scalar_kernel_source_def)
  from resolve_scalar_cells [OF this] show ?thesis
    by (simp add: Generator resolve_kernel_def kernel_of_def with_explicit_weights_def explicit_weights_promote Let_def)
qed

lemma resolve_size_explicit:
  "resolve_size wnd (with_explicit_weights ks) sz = resolve_size wnd ks sz"
  by (cases ks) (simp_all add: resolve_size_def with_explicit_weights_def explicit_weights_def)

section \<open>The bytes of one output pixel\<close>



lemma pixel_ok_sums:
  assumes "pixel_ok img h ks x y"
  obtains kern acc where
    "resolve_kernel ks (make_area img h (int x) (int y)) = Inr kern"
    "accumulate (area_pixels (make_area img h (int x) (int y))) kern = Inr acc"
    "avg_of img h ks x y = area_avg acc"
  using assms
  by (auto simp: pixel_ok_def avg_of_def pixel_avg_def Let_def split: sum.splits)

lemma convolution_pixel_block:
  assumes "fst (convolution wnd (ImageDataSource img) ks sz) = Inr res"
    "x < width img" "y < height img"
  shows "pixel_ok img (resolve_size wnd ks sz div 2) ks x y"
    "block (data res) (y * width img + x) = bytes_of (avg_of img (resolve_size wnd ks sz div 2) ks x y)"
  using convolution_Inr(3,4) [OF assms(1)] assms(2,3)
  by (simp_all add: paint_rows_blank)

section \<open>Kernels that fit\<close>

lemma accumulate_cell_defined:
  "apixel \<noteq> Undefined \<Longrightarrow> kpixel \<noteq> Undefined \<Longrightarrow> \<exists>acc'. accumulate_cell acc apixel kpixel = Inr acc'"
  by (simp add: accumulate_cell_def Let_def)

lemma accumulate_row_defined:
  assumes "\<forall>i\<in>set is. i < length arow \<and> arow ! i \<noteq> Undefined \<and> i < length kr \<and> kr ! i \<noteq> Undefined"
  shows "\<exists>acc'. accumulate_row arow (Some kr) is acc = Inr acc'"
  using assms
proof (induction "is" arbitrary: acc)
  case Nil
  show ?case by simp
next
  case (Cons i "is")
  then have "js_index arow i \<noteq> Undefined" "js_index kr i \<noteq> Undefined"
    by (simp_all add: js_index_def)
  then obtain acc' where "accumulate_cell acc (js_index arow i) (js_index kr i) = Inr acc'"
    using accumulate_cell_defined by blast
  then show ?case using Cons by simp
qed

lemma accumulate_rows_defined:
  assumes "\<forall>j\<in>set js. j < length kern
             \<and> (\<forall>i<length (pixels ! 0). i < length (pixels ! j) \<and> pixels ! j ! i \<noteq> Undefined
                   \<and> i < length (kern ! j) \<and> kern ! j ! i \<noteq> Undefined)"
  shows "\<exists>acc'. accumulate_rows pixels kern js acc = Inr acc'"
  using assms
proof (induction js arbitrary: acc)
  case Nil
  show ?case by simp
next
  case (Cons j js)
  then have j: "j < length kern"
    and row: "\<forall>i\<in>set [0..<length (pixels ! 0)]. i < length (pixels ! j) \<and> pixels ! j ! i \<noteq> Undefined
                   \<and> i < length (kern ! j) \<and> kern ! j ! i \<noteq> Undefined"
    by simp_all
  obtain acc' where "accumulate_row (pixels ! j) (Some (kern ! j)) [0..<length (pixels ! 0)] acc = Inr acc'"
    using accumulate_row_defined [OF row] by blast
  then show ?case using Cons j by (simp add: kernel_row_def)
qed

lemma getPixel_defined [simp]: "getPixel img x y \<noteq> Undefined"
  by (simp add: getPixel_def Let_def)

lemma area_pixels_rows:
  assumes "j < length (area_pixels (make_area img h x y))"
  shows "area_pixels (make_area img h x y) ! j =
           map (\<lambda>ax. getPixel img ax (area_top (make_area img h x y) + int j))
               [area_left (make_area img h x y)..area_right (make_area img h x y)]"
proof -
  let ?a = "make_area img h x y"
  have px: "area_pixels ?a = map (\<lambda>ay. map (\<lambda>ax. getPixel img ax ay) [area_left ?a..area_right ?a])
         [area_top ?a..area_bottom ?a]"
    by (rule make_area_fields)
  have len: "j < length [area_top ?a..area_bottom ?a]"
    using assms by (subst (asm) px) simp
  then have "[area_top ?a..area_bottom ?a] ! j = area_top ?a + int j"
    by (simp add: nth_upto)
  then show ?thesis
    by (subst px) (simp add: len del: length_upto)
qed

lemma area_pixels_defined:
  assumes "j < length (area_pixels (make_area img h x y))"
    "i < length (area_pixels (make_area img h x y) ! 0)"
  shows "i < length (area_pixels (make_area img h x y) ! j)"
    "area_pixels (make_area img h x y) ! j ! i \<noteq> Undefined"
proof -
  have 0: "0 < length (area_pixels (make_area img h x y))" using assms(1) by (cases j) auto
  show i: "i < length (area_pixels (make_area img h x y) ! j)"
    using assms(2) by (simp add: area_pixels_rows [OF assms(1)] area_pixels_rows [OF 0])
  show "area_pixels (make_area img h x y) ! j ! i \<noteq> Undefined"
    using i by (simp add: area_pixels_rows [OF assms(1)])
qed

lemma promote_nth:
  "j < length k \<Longrightarrow> i < length (k ! j) \<Longrightarrow> promote k ! j ! i = new_Pixel [k ! j ! i]"
  by (simp add: promote_def)

lemma promote_row_length: "j < length k \<Longrightarrow> length (promote k ! j) = length (k ! j)"
  by (simp add: promote_def)

lemma kernel_fits_pixel_ok:
  assumes "kernel_fits (kernel_of ks (make_area img h (int x) (int y)))
             (area_pixels (make_area img h (int x) (int y)))"
  shows "pixel_ok img h ks x y"
proof -
  let ?a = "make_area img h (int x) (int y)"
  let ?k = "kernel_of ks ?a"
  from assms obtain c where c: "first_cell ?k = Inr c"
    and cover: "\<forall>j<length (area_pixels ?a). j < length ?k
           \<and> (\<forall>i<length (area_pixels ?a ! 0). i < length (?k ! j) \<and> ?k ! j ! i \<noteq> Undefined)"
    by (auto simp: kernel_fits_def)
  define kern where "kern = (if is_Number c then promote ?k else ?k)"
  have res: "resolve_kernel ks ?a = Inr kern"
    by (simp add: resolve_kernel_def Let_def c kern_def)
  have cover': "\<forall>j\<in>set [0..<length (area_pixels ?a)]. j < length kern
             \<and> (\<forall>i<length (area_pixels ?a ! 0). i < length (area_pixels ?a ! j)
                   \<and> area_pixels ?a ! j ! i \<noteq> Undefined
                   \<and> i < length (kern ! j) \<and> kern ! j ! i \<noteq> Undefined)"
    using cover
    by (auto simp: kern_def area_pixels_defined promote_nth promote_row_length)
  obtain acc where "accumulate (area_pixels ?a) kern = Inr acc"
    unfolding accumulate_def using accumulate_rows_defined [OF cover'] by blast
  then show ?thesis
    by (simp add: pixel_ok_def pixel_avg_def Let_def res)
qed

lemma convolution_returns:
  assumes "0 < width img" "0 < height img"
    "\<forall>y<height img. \<forall>x<width img.
        kernel_fits (kernel_of ks (make_area img (resolve_size wnd ks sz div 2) (int x) (int y)))
           (area_pixels (make_area img (resolve_size wnd ks sz div 2) (int x) (int y)))"
  shows "\<exists>res. fst (convolution wnd (ImageDataSource img) ks sz) = Inr res"
  using assms(3) by (simp add: convolution_ImageData [OF assms(1,2)] kernel_fits_pixel_ok)

section \<open>Uniform kernels\<close>












section \<open>The older variant, compared\<close>

text \<open>The older variant does not take the length of a static kernel as the size: with
  the size omitted, the 3 by 3 kernel of ones runs with half-size 2, and the corner of the
  scenario image is the mean 50 of the whole image, where the newer variant gives the mean
  30 of the four pixels in reach of half-size 1.\<close>

lemma legacy_omitted_size:
  "resolve_size_legacy (load_convolution wnd0) None = 5
   \<and> fst (convolution_legacy wnd0 (ImageDataSource (scenario_image (\<lambda>n. 0)))
              (Static (explicit_weights all_ones)) None)
      = Inr \<lparr>width = 3, height = 3,
              data = [50, 0, 0, 255, 50, 0, 0, 255, 50, 0, 0, 255, 50, 0, 0, 255, 50, 0, 0, 255,
                      50, 0, 0, 255, 50, 0, 0, 255, 50, 0, 0, 255, 50, 0, 0, 255]\<rparr>
   \<and> fst (convolution wnd0 (ImageDataSource (scenario_image (\<lambda>n. 0)))
              (Static (explicit_weights all_ones)) None)
      = Inr \<lparr>width = 3, height = 3,
              data = [30, 0, 0, 255, 35, 0, 0, 255, 40, 0, 0, 255, 45, 0, 0, 255, 50, 0, 0, 255,
                      55, 0, 0, 255, 60, 0, 0, 255, 65, 0, 0, 255, 70, 0, 0, 255]\<rparr>"
  by code_simp

text \<open>The older variant does not promote: a scalar cell has no channels, every sum is
  \<open>NaN\<close>, and the colour bytes are 0.\<close>

lemma legacy_scalar_kernel:
  "fst (convolution_legacy wnd0 (ImageDataSource img1) (Static [[Num 1]]) (Some 1))
      = Inr \<lparr>width = 1, height = 1, data = [0, 0, 0, 255]\<rparr>
   \<and> fst (convolution wnd0 (ImageDataSource img1) (Static [[Num 1]]) (Some 1))
      = Inr \<lparr>width = 1, height = 1, data = [7, 8, 9, 255]\<rparr>"
  by code_simp

section \<open>Properties of the convolution\<close>

text \<open>C1 (dimension preservation): whatever the kernel source and the size, a buffer
  returned by the convolution of an ImageData has the width and the height of the
  input.\<close>

theorem convolution_preserves_dimensions:
  assumes "fst (convolution wnd (ImageDataSource img) ks sz) = Inr res"
  shows "width res = width img \<and> height res = height img"
  using convolution_Inr(4) [OF assms] by (simp add: paint_rows_blank)

theorem convolution_preserves_dimensions_witness:
  "fst (convolution wnd0 (ImageDataSource img1) (Static [[Num 1]]) None)
     = Inr \<lparr>width = 1, height = 1, data = [7, 8, 9, 255]\<rparr>
   \<and> width \<lparr>width = 1, height = 1, data = [7, 8, 9, 255 :: 8 word]\<rparr> = width img1
   \<and> height \<lparr>width = 1, height = 1, data = [7, 8, 9, 255 :: 8 word]\<rparr> = height img1"
proof -
  have r: "fst (convolution wnd0 (ImageDataSource img1) (Static [[Num 1]]) None)
     = Inr \<lparr>width = 1, height = 1, data = [7, 8, 9, 255]\<rparr>"
    by code_simp
  from convolution_preserves_dimensions [OF r] r show ?thesis by simp
qed

text \<open>C2 (concrete scenario): the 3 by 3 image with red channels 10, 20, ..., 90 in
  row-major order and any other channel bytes, the static 3 by 3 kernel of ones and size 3:
  the call returns a buffer, and the red byte of its centre pixel (1, 1) is 50.\<close>

theorem scenario_center_red:
  "\<exists>res. fst (convolution wnd (ImageDataSource (scenario_image other)) (Static all_ones) (Some 3)) = Inr res
      \<and> data res ! nat (getPixelLocation (scenario_image other) 1 1) = 50"
proof -
  let ?img = "scenario_image other"
  let ?res = "paint_rows ?img 1 (Static all_ones) (blank ?img) [0..<height ?img]"
  have dims: "width ?img = 3" "height ?img = 3"
    by (simp_all add: scenario_image_def)
  have ok: "\<forall>y<height ?img. \<forall>x<width ?img. pixel_ok ?img 1 (Static all_ones) x y"
    using ok_scn by (simp add: dims)
  have conv: "fst (convolution wnd (ImageDataSource ?img) (Static all_ones) (Some 3)) = Inr ?res"
    using ok by (simp add: convolution_ImageData dims resolve_size_Some)
  have "block (data ?res) (1 * width ?img + 1) = bytes_of (avg_of ?img 1 (Static all_ones) 1 1)"
    by (rule paint_rows_blank(4)) (simp_all add: dims)
  then have "data ?res ! 16 = to_uint8_clamp (chan_r (avg_of ?img 1 (Static all_ones) 1 1))"
    by (simp add: block_def bytes_of_def dims)
  then have "data ?res ! 16 = 50"
    by (simp only: avg_scn) simp
  moreover have "nat (getPixelLocation ?img 1 1) = 16"
    by (simp add: getPixelLocation_def dims)
  ultimately show ?thesis using conv by simp
qed



text \<open>C4 (degenerate kernel rejection) fails as stated: on a 2 by 1 image the static
  kernel \<open>[[-1, 1]]\<close> with size 3 covers both neighbourhoods with weights that sum to
  zero on every channel, and the call throws nothing: it returns the buffer, with 255 where
  the weighted sum is positive and 0 where it is zero or negative.\<close>

theorem zero_sum_kernel_not_rejected_example:
  "resolve_kernel (Static [[Num (- 1), Num 1]]) (make_area img2 1 0 0)
      = Inr [[Pixel (Num (- 1)) (Num (- 1)) (Num (- 1)) (Num 255), Pixel (Num 1) (Num 1) (Num 1) (Num 255)]]
   \<and> accumulate (area_pixels (make_area img2 1 0 0))
        [[Pixel (Num (- 1)) (Num (- 1)) (Num (- 1)) (Num 255), Pixel (Num 1) (Num 1) (Num 1) (Num 255)]]
      = Inr (Pixel (Num 20) (Num 0) (Num (- 8)) (Num 255), Pixel (Num 0) (Num 0) (Num 0) (Num 255))
   \<and> fst (convolution wnd0 (ImageDataSource img2) (Static [[Num (- 1), Num 1]]) (Some 3))
      = Inr \<lparr>width = 2, height = 1, data = [255, 0, 0, 255, 255, 0, 0, 255]\<rparr>"
  by code_simp

text \<open>C4 as amended: a zero sum of kernel weights is not an error. When the kernel fits
  every neighbourhood (it has a first cell, and a cell that is not \<open>undefined\<close> for every
  pixel of the area), the call returns a buffer; and where the weights of a colour channel
  sum to zero at a coordinate, the byte of that channel there is 255 if the weighted sum of
  the area is positive and 0 otherwise.\<close>

theorem zero_weight_sum_not_rejected:
  assumes "0 < width img" "0 < height img"
    and "\<forall>y<height img. \<forall>x<width img.
        kernel_fits (kernel_of ks (make_area img (resolve_size wnd ks sz div 2) (int x) (int y)))
           (area_pixels (make_area img (resolve_size wnd ks sz div 2) (int x) (int y)))"
    and "x < width img" "y < height img"
    and "resolve_kernel ks (make_area img (resolve_size wnd ks sz div 2) (int x) (int y)) = Inr kern"
    and "accumulate (area_pixels (make_area img (resolve_size wnd ks sz div 2) (int x) (int y))) kern
           = Inr (area_sum, kernel_sum)"
    and "(sel, off) \<in> {(chan_r, 0), (chan_g, 1), (chan_b, 2)}"
    and "sel kernel_sum = Num 0" "sel area_sum = Num s"
  shows "\<exists>res. fst (convolution wnd (ImageDataSource img) ks sz) = Inr res
           \<and> data res ! (4 * (y * width img + x) + off) = (if 0 < s then 255 else 0)"
proof -
  let ?h = "resolve_size wnd ks sz div 2"
  obtain res where res: "fst (convolution wnd (ImageDataSource img) ks sz) = Inr res"
    using convolution_returns [OF assms(1-3)] by blast
  note px = convolution_pixel_block [OF res assms(4,5)]
  from px(1) obtain kern' acc where
    "resolve_kernel ks (make_area img ?h (int x) (int y)) = Inr kern'"
    "accumulate (area_pixels (make_area img ?h (int x) (int y))) kern' = Inr acc"
    and a: "avg_of img ?h ks x y = area_avg acc"
    by (rule pixel_ok_sums)
  then have acc: "acc = (area_sum, kernel_sum)"
    using assms(6,7) by simp
  have bytes: "block (data res) (y * width img + x) =
      [to_uint8_clamp (floor_div (chan_r area_sum) (chan_r kernel_sum)),
       to_uint8_clamp (floor_div (chan_g area_sum) (chan_g kernel_sum)),
       to_uint8_clamp (floor_div (chan_b area_sum) (chan_b kernel_sum)), 255]"
    by (simp add: px(2) a acc bytes_of_def area_avg_def)
  have "data res ! (4 * (y * width img + x) + off) = to_uint8_clamp (floor_div (sel area_sum) (sel kernel_sum))"
    using bytes assms(8) by (auto simp: block_def)
  also have "\<dots> = (if 0 < s then 255 else 0)"
    by (simp add: assms(9,10) floor_div_def)
  finally show ?thesis using res by blast
qed

theorem zero_weight_sum_not_rejected_witness:
  "0 < width img2 \<and> 0 < height img2
   \<and> chan_r (Pixel (Num 0) (Num 0) (Num 0) (Num 255)) = Num 0
   \<and> (\<exists>res. fst (convolution wnd0 (ImageDataSource img2) (Static [[Num (- 1), Num 1]]) (Some 3)) = Inr res
           \<and> data res ! 0 = 255)"
proof -
  let ?ks = "Static [[Num (- 1), Num 1]]"
  have h: "resolve_size wnd0 ?ks (Some 3) div 2 = 1"
    by (simp add: resolve_size_def)
  have w: "0 < width img2" and hh: "0 < height img2" and x: "0 < width img2"
    by (simp_all add: img2_def)
  have fits: "\<forall>y<height img2. \<forall>x<width img2.
        kernel_fits (kernel_of ?ks (make_area img2 (resolve_size wnd0 ?ks (Some 3) div 2) (int x) (int y)))
           (area_pixels (make_area img2 (resolve_size wnd0 ?ks (Some 3) div 2) (int x) (int y)))"
  proof (intro allI impI)
    fix y x assume "y < height img2" "x < width img2"
    then have "y = 0" "x \<in> {0, 1}" by (auto simp: img2_def)
    then show "kernel_fits (kernel_of ?ks (make_area img2 (resolve_size wnd0 ?ks (Some 3) div 2) (int x) (int y)))
           (area_pixels (make_area img2 (resolve_size wnd0 ?ks (Some 3) div 2) (int x) (int y)))"
      unfolding h
      by (auto simp: kernel_fits_def kernel_of_def first_cell_def make_area_def img2_def Let_def
          upto.simps less_Suc_eq)
  qed
  have k: "resolve_kernel ?ks (make_area img2 (resolve_size wnd0 ?ks (Some 3) div 2) (int 0) (int 0))
      = Inr [[Pixel (Num (- 1)) (Num (- 1)) (Num (- 1)) (Num 255), Pixel (Num 1) (Num 1) (Num 1) (Num 255)]]"
    unfolding h by code_simp
  have a: "accumulate (area_pixels (make_area img2 (resolve_size wnd0 ?ks (Some 3) div 2) (int 0) (int 0)))
        [[Pixel (Num (- 1)) (Num (- 1)) (Num (- 1)) (Num 255), Pixel (Num 1) (Num 1) (Num 1) (Num 255)]]
      = Inr (Pixel (Num 20) (Num 0) (Num (- 8)) (Num 255), Pixel (Num 0) (Num 0) (Num 0) (Num 255))"
    unfolding h by code_simp
  have sel: "(chan_r, 0::nat) \<in> {(chan_r, 0), (chan_g, 1), (chan_b, 2)}"
    by simp
  from zero_weight_sum_not_rejected [OF w hh fits x hh k a sel, of 20]
  show ?thesis using w hh by simp
qed

text \<open>C5 (scalar kernel promotion): a kernel source whose cells are all bare numbers
  gives, for every area, the same resolved kernel as the source with each cell \<open>n\<close>
  replaced by the Pixel \<open>(n, n, n, 255)\<close>, and the two calls return the same buffer or
  throw the same error.\<close>

theorem scalar_kernel_as_explicit_weights:
  assumes "scalar_kernel_source ks"
  shows "(\<forall>a. resolve_kernel ks a = resolve_kernel (with_explicit_weights ks) a)
       \<and> fst (convolution wnd src ks sz) = fst (convolution wnd src (with_explicit_weights ks) sz)"
proof -
  have "fst (convolution wnd src ks sz) = fst (convolution wnd src (with_explicit_weights ks) sz)"
    by (rule convolution_fst_cong)
       (simp_all add: resolve_kernel_explicit [OF assms] resolve_size_explicit)
  then show ?thesis
    by (simp add: resolve_kernel_explicit [OF assms])
qed

theorem scalar_kernel_as_explicit_weights_witness:
  "scalar_kernel_source (Static [[Num 2]])
   \<and> fst (convolution wnd0 (ImageDataSource img1) (Static [[Num 2]]) None) =
       fst (convolution wnd0 (ImageDataSource img1)
              (Static [[Pixel (Num 2) (Num 2) (Num 2) (Num 255)]]) None)"
proof -
  have s: "scalar_kernel_source (Static [[Num 2]])"
    by (simp add: scalar_kernel_source_def scalar_cells_def)
  from scalar_kernel_as_explicit_weights [OF s, of wnd0 "ImageDataSource img1" None] s
  show ?thesis
    by (simp add: with_explicit_weights_def explicit_weights_def)
qed

text \<open>C6 (default size): with the size omitted, a static kernel runs exactly as with
  its own length given as the size, and a generator runs exactly as with the default
  kernel size, which is 5 once the file is loaded.\<close>

theorem omitted_size_default:
  "resolve_size wnd (Static k) None = int (length k)
   \<and> resolve_size (load_convolution wnd) (Generator f) None = 5
   \<and> convolution wnd src (Static k) None =
       convolution wnd src (Static k) (Some (int (length k)))
   \<and> convolution (load_convolution wnd) src (Generator f) None =
       convolution (load_convolution wnd) src (Generator f) (Some 5)"
proof -
  have s: "resolve_size w (Static k) None = resolve_size w (Static k) (Some (int (length k)))" for w
    by (simp add: resolve_size_def)
  have g: "resolve_size (load_convolution w) (Generator f) None =
           resolve_size (load_convolution w) (Generator f) (Some 5)" for w
    by (simp add: resolve_size_def load_convolution_def)
  have "convolution wnd src (Static k) None =
       convolution wnd src (Static k) (Some (int (length k)))"
    by (cases src) (simp_all add: convolution_def Let_def s split: sum.splits)
  moreover have "convolution (load_convolution wnd) src (Generator f) None =
       convolution (load_convolution wnd) src (Generator f) (Some 5)"
    by (cases src) (simp_all add: convolution_def Let_def g [unfolded load_convolution_def] load_convolution_def resolve_size_def split: sum.splits)
  ultimately show ?thesis
    by (simp add: resolve_size_def load_convolution_def)
qed





text \<open>C9 (area invariant): around a centre inside the image and for a half-size that is
  not negative, the box of the area is the window \<open>[cx - h, cx + h] \<times> [cy - h, cy + h]\<close>
  with each edge clamped on its own to the image; the pixel grid has
  \<open>bottom - top + 1\<close> rows of \<open>right - left + 1\<close> cells; and the cell \<open>(j, i)\<close> is the
  image's own pixel at \<open>(left + i, top + j)\<close>, a coordinate inside the image, so nothing
  is padded or replicated.\<close>

theorem area_clamped_by_truncation:
  assumes "0 \<le> h" "0 \<le> cx" "cx < int (width img)" "0 \<le> cy" "cy < int (height img)"
  shows "area_left (make_area img h cx cy) = max 0 (cx - h)
       \<and> area_right (make_area img h cx cy) = min (int (width img) - 1) (cx + h)
       \<and> area_top (make_area img h cx cy) = max 0 (cy - h)
       \<and> area_bottom (make_area img h cx cy) = min (int (height img) - 1) (cy + h)
       \<and> int (length (area_pixels (make_area img h cx cy))) =
           area_bottom (make_area img h cx cy) - area_top (make_area img h cx cy) + 1
       \<and> (\<forall>row\<in>set (area_pixels (make_area img h cx cy)).
             int (length row) =
               area_right (make_area img h cx cy) - area_left (make_area img h cx cy) + 1)
       \<and> (\<forall>j<length (area_pixels (make_area img h cx cy)).
            \<forall>i<length (area_pixels (make_area img h cx cy) ! j).
              area_pixels (make_area img h cx cy) ! j ! i =
                getPixel img (area_left (make_area img h cx cy) + int i)
                             (area_top (make_area img h cx cy) + int j)
              \<and> 0 \<le> area_left (make_area img h cx cy) + int i
              \<and> area_left (make_area img h cx cy) + int i < int (width img)
              \<and> 0 \<le> area_top (make_area img h cx cy) + int j
              \<and> area_top (make_area img h cx cy) + int j < int (height img))"
  using assms by (rule make_area_grid)

theorem area_clamped_by_truncation_witness:
  "(0::int) \<le> 1 \<and> (0::int) \<le> 0 \<and> 0 < int (width (scenario_image (\<lambda>n. 0)))
     \<and> 0 < int (height (scenario_image (\<lambda>n. 0)))
     \<and> area_left (make_area (scenario_image (\<lambda>n. 0)) 1 0 0) = 0
     \<and> area_right (make_area (scenario_image (\<lambda>n. 0)) 1 0 0) = 1
     \<and> area_top (make_area (scenario_image (\<lambda>n. 0)) 1 0 0) = 0
     \<and> area_bottom (make_area (scenario_image (\<lambda>n. 0)) 1 0 0) = 1
     \<and> length (area_pixels (make_area (scenario_image (\<lambda>n. 0)) 1 0 0)) = 2"
proof -
  have w: "(0::int) < int (width (scenario_image (\<lambda>n. 0)))"
    and h: "(0::int) < int (height (scenario_image (\<lambda>n. 0)))"
    by (simp_all add: scenario_image_def)
  have dims: "int (width (scenario_image (\<lambda>n. 0))) = 3" "int (height (scenario_image (\<lambda>n. 0))) = 3"
    by (simp_all add: scenario_image_def)
  from area_clamped_by_truncation [of 1 0 "scenario_image (\<lambda>n. 0)" 0, OF _ _ w _ h]
  show ?thesis using w h unfolding dims by simp
qed

text \<open>C10 (promotion in place): after a call on an ImageData with a static kernel whose
  cell \<open>[0][0]\<close> is a number, the caller's array holds a Pixel in every cell, whatever the
  other cells were; with a Pixel in \<open>[0][0]\<close> the array is left as it was, whatever the
  other cells are.\<close>

theorem static_kernel_promoted_in_place:
  assumes "0 < width img" "0 < height img" "first_cell k = Inr c"
  shows "snd (snd (convolution wnd (ImageDataSource img) (Static k) sz)) =
           Static (if is_Number c then map (map (\<lambda>v. Pixel v v v (Num 255))) k else k)"
  using assms by (simp add: convolution_snd promoted_def promote_def)

theorem static_kernel_promoted_in_place_witness:
  "0 < width img1 \<and> 0 < height img1
     \<and> first_cell [[Num 2, Pixel (Num 1) (Num 1) (Num 1) (Num 255)]] = Inr (Num 2)
     \<and> snd (snd (convolution wnd0 (ImageDataSource img1)
                  (Static [[Num 2, Pixel (Num 1) (Num 1) (Num 1) (Num 255)]]) (Some 1))) =
         Static [[Pixel (Num 2) (Num 2) (Num 2) (Num 255),
                  Pixel (Pixel (Num 1) (Num 1) (Num 1) (Num 255))
                        (Pixel (Num 1) (Num 1) (Num 1) (Num 255))
                        (Pixel (Num 1) (Num 1) (Num 1) (Num 255)) (Num 255)]]"
proof -
  have w: "0 < width img1" and h: "0 < height img1"
    by (simp_all add: img1_def)
  have c: "first_cell [[Num 2, Pixel (Num 1) (Num 1) (Num 1) (Num 255)]] = Inr (Num 2)"
    by (simp add: first_cell_def)
  from static_kernel_promoted_in_place [OF w h c, of wnd0 "Some 1"] w h c
  show ?thesis by simp
qed

end
